theory Spec2Isabelle
  imports Main "HOL-Library.Multiset" "HOL-Library.Sublist" "HOL-Library.List_Lexorder"
    "HOL-Library.Char_ord"
begin

section \<open>The Task entity (interface Task of the client screens)\<close>

text \<open>
  The TypeScript interface declares the three enumerated fields as unions of string
  literals; they are closed datatypes here.  Optional fields (\<open>description?\<close>,
  \<open>due_date?\<close>) are options, \<open>None\<close> standing for an absent value.  Time stamps
  are the ISO-8601 strings of the JSON representation, as in the interface.

  Text the user types (title, description, search query, quick-add text) is a
  JavaScript string in full: the list of its UTF-16 code units, each a number below
  65536.  Identifiers, time stamps, selections, sort keys and messages are ASCII and are
  kept as \<open>string\<close>.
\<close>

type_synonym jstext = "nat list"

text \<open>The code units of an ASCII literal.\<close>

definition code_units :: "string \<Rightarrow> jstext" where
  "code_units s = map of_char s"

datatype priority = Low | Medium | High

datatype category = Work | Personal | Study | Other

datatype status = Pending | Completed

record task =
  task_id :: string
  title :: jstext
  description :: "jstext option"
  due_date :: "string option"
  priority :: priority
  category :: category
  status :: status
  created_at :: string
  updated_at :: string

text \<open>The string literal behind each enumerated value, used where the screens compare a
  field with a selection held as a plain string (\<open>task.priority === selectedPriority\<close>).\<close>

fun priority_str :: "priority \<Rightarrow> string" where
  "priority_str Low = ''low''"
| "priority_str Medium = ''medium''"
| "priority_str High = ''high''"

fun category_str :: "category \<Rightarrow> string" where
  "category_str Work = ''work''"
| "category_str Personal = ''personal''"
| "category_str Study = ''study''"
| "category_str Other = ''other''"

fun status_str :: "status \<Rightarrow> string" where
  "status_str Pending = ''pending''"
| "status_str Completed = ''completed''"


section \<open>JavaScript primitives used by the screens\<close>

text \<open>Truthiness of an optional string: \<open>undefined\<close> and the empty string are falsy.\<close>

definition truthy :: "'a list option \<Rightarrow> bool" where
  "truthy v = (case v of None \<Rightarrow> False | Some s \<Rightarrow> s \<noteq> [])"

text \<open>
  \<open>String.prototype.trim\<close> removes, at both ends, the code units that ECMAScript counts
  as white space or as line terminators: tab, line feed, vertical tab, form feed,
  carriage return, space, no-break space, the Unicode space separators (U+1680,
  U+2000 to U+200A, U+202F, U+205F, U+3000), the line and paragraph separators and the
  byte order mark.  All of them are single code units.
\<close>

definition isWhiteSpace :: "nat \<Rightarrow> bool" where
  "isWhiteSpace c =
     (c \<in> set [0x09, 0x0A, 0x0B, 0x0C, 0x0D, 0x20, 0xA0, 0x1680, 0x2028, 0x2029, 0x202F,
                0x205F, 0x3000, 0xFEFF]
      \<or> (0x2000 \<le> c \<and> c \<le> 0x200A))"

definition trim :: "jstext \<Rightarrow> jstext" where
  "trim s = rev (dropWhile isWhiteSpace (rev (dropWhile isWhiteSpace s)))"

text \<open>\<open>String.prototype.includes\<close>: the argument occurs as a run of consecutive code
  units.\<close>

fun str_includes :: "'a list \<Rightarrow> 'a list \<Rightarrow> bool" where
  "str_includes [] q = (q = [])"
| "str_includes (c # cs) q = (prefix q (c # cs) \<or> str_includes cs q)"

text \<open>
  A JavaScript number that may be \<open>NaN\<close> is an \<open>int option\<close> (all numbers met here are
  millisecond counts or small integers).  A \<open>Date\<close> object is its time value, \<open>None\<close>
  for an Invalid Date.
\<close>

type_synonym jsnum = "int option"

type_synonym jsdate = "int option"

definition js_sub :: "jsnum \<Rightarrow> jsnum \<Rightarrow> jsnum" where
  "js_sub a b = (case a of None \<Rightarrow> None | Some x \<Rightarrow> (case b of None \<Rightarrow> None | Some y \<Rightarrow> Some (x - y)))"

definition js_lt :: "jsnum \<Rightarrow> jsnum \<Rightarrow> bool" where
  "js_lt a b = (case a of None \<Rightarrow> False | Some x \<Rightarrow> (case b of None \<Rightarrow> False | Some y \<Rightarrow> x < y))"

definition js_le :: "jsnum \<Rightarrow> jsnum \<Rightarrow> bool" where
  "js_le a b = (case a of None \<Rightarrow> False | Some x \<Rightarrow> (case b of None \<Rightarrow> False | Some y \<Rightarrow> x \<le> y))"

text \<open>
  What the run-time platform and the date-fns library supply: the Unicode lower-casing
  of \<open>String.prototype.toLowerCase\<close> (which rests on the Unicode character database and
  its context rules), the locale's collation, the parsing of a date string, the clock,
  and the calendar functions, which depend on the device's time zone.  They are
  parameters of the model.
\<close>

record platform =
  toLowerCase :: "jstext \<Rightarrow> jstext"
  localeCompare :: "jstext \<Rightarrow> jstext \<Rightarrow> int"
  parseDate :: "string \<Rightarrow> jsdate"
  now :: int
  isToday :: "jsdate \<Rightarrow> bool"
  isTomorrow :: "jsdate \<Rightarrow> bool"
  isPast :: "jsdate \<Rightarrow> bool"
  differenceInDays :: "jsdate \<Rightarrow> jsdate \<Rightarrow> jsnum"
  startOfDay :: "int \<Rightarrow> int"
  endOfDay :: "int \<Rightarrow> int"
  isThisWeek :: "jsdate \<Rightarrow> bool"
  parseISO :: "string \<Rightarrow> jsdate"
  toISOString :: "int \<Rightarrow> string"

text \<open>\<open>new Date(v)\<close> for an optional string; \<open>new Date(undefined)\<close> is an Invalid Date.\<close>

definition newDate :: "platform \<Rightarrow> string option \<Rightarrow> jsdate" where
  "newDate pf v = (case v of None \<Rightarrow> None | Some s \<Rightarrow> parseDate pf s)"

text \<open>
  \<open>Array.prototype.sort\<close> with a comparator.  The sort is stable and a comparator result
  of \<open>NaN\<close> counts as 0; for a consistent comparator the result is the one a stable
  insertion sort computes, which is the model.
\<close>

definition sortCompare :: "jsnum \<Rightarrow> int" where
  "sortCompare v = (case v of None \<Rightarrow> 0 | Some n \<Rightarrow> n)"

fun insertSorted :: "('a \<Rightarrow> 'a \<Rightarrow> jsnum) \<Rightarrow> 'a \<Rightarrow> 'a list \<Rightarrow> 'a list" where
  "insertSorted cmp x [] = [x]"
| "insertSorted cmp x (y # ys) =
     (if sortCompare (cmp x y) \<le> 0 then x # y # ys else y # insertSorted cmp x ys)"

definition array_sort :: "('a \<Rightarrow> 'a \<Rightarrow> jsnum) \<Rightarrow> 'a list \<Rightarrow> 'a list" where
  "array_sort cmp xs = foldr (insertSorted cmp) xs []"


section \<open>The task list screen: filtering, searching and sorting (app/index.tsx)\<close>

text \<open>The search predicate of the first \<open>filter\<close> call.\<close>

definition searchMatch :: "platform \<Rightarrow> jstext \<Rightarrow> task \<Rightarrow> bool" where
  "searchMatch pf searchQuery t =
     (str_includes (toLowerCase pf (title t)) (toLowerCase pf searchQuery) \<or>
      (case description t of
         None \<Rightarrow> False
       | Some d \<Rightarrow>
           d \<noteq> [] \<and> str_includes (toLowerCase pf d) (toLowerCase pf searchQuery)))"

fun priorityOrder :: "priority \<Rightarrow> int" where
  "priorityOrder High = 3"
| "priorityOrder Medium = 2"
| "priorityOrder Low = 1"

text \<open>The comparator handed to \<open>sort\<close>: a \<open>switch\<close> on the sort key.\<close>

definition compareTasks :: "platform \<Rightarrow> string \<Rightarrow> task \<Rightarrow> task \<Rightarrow> jsnum" where
  "compareTasks pf sortBy a b =
     (if sortBy = ''title'' then Some (localeCompare pf (title a) (title b))
      else if sortBy = ''due_date'' then
        (if \<not> truthy (due_date a) \<and> \<not> truthy (due_date b) then Some 0
         else if \<not> truthy (due_date a) then Some 1
         else if \<not> truthy (due_date b) then Some (- 1)
         else js_sub (newDate pf (due_date a)) (newDate pf (due_date b)))
      else if sortBy = ''priority'' then
        Some (priorityOrder (priority b) - priorityOrder (priority a))
      else js_sub (parseDate pf (created_at b)) (parseDate pf (created_at a)))"

text \<open>The effect that recomputes \<open>filteredTasks\<close> from the fetched tasks, the search
  query, the three selections and the sort key.\<close>

definition filteredTasks ::
  "platform \<Rightarrow> task list \<Rightarrow> jstext \<Rightarrow> string \<Rightarrow> string \<Rightarrow> string \<Rightarrow> string \<Rightarrow> task list" where
  "filteredTasks pf tasks searchQuery selectedCategory selectedPriority selectedStatus sortBy =
     (let f0 = tasks;
          f1 = (if searchQuery \<noteq> [] then filter (searchMatch pf searchQuery) f0 else f0);
          f2 = (if selectedCategory \<noteq> ''all''
                then filter (\<lambda>t. category_str (category t) = selectedCategory) f1 else f1);
          f3 = (if selectedPriority \<noteq> ''all''
                then filter (\<lambda>t. priority_str (priority t) = selectedPriority) f2 else f2);
          f4 = (if selectedStatus \<noteq> ''all''
                then filter (\<lambda>t. status_str (status t) = selectedStatus) f3 else f3)
      in array_sort (compareTasks pf sortBy) f4)"


subsection \<open>Due-date badge and the statistics bar\<close>

datatype colour = Warning | Accent | Error | TextSecondary

datatype due_text = Today | Tomorrow | DaysOverdue jsnum | DaysLeft jsnum

record due_info =
  info_text :: due_text
  info_color :: colour
  info_urgent :: bool

definition js_abs :: "jsnum \<Rightarrow> jsnum" where
  "js_abs v = map_option abs v"

definition getDueDateInfo :: "platform \<Rightarrow> string option \<Rightarrow> due_info option" where
  "getDueDateInfo pf dd =
     (if \<not> truthy dd then None
      else
        let dueDate = newDate pf dd; today = Some (now pf) in
        if isToday pf dueDate then
          Some \<lparr>info_text = Today, info_color = Warning, info_urgent = True\<rparr>
        else if isTomorrow pf dueDate then
          Some \<lparr>info_text = Tomorrow, info_color = Accent, info_urgent = False\<rparr>
        else if isPast pf dueDate then
          Some \<lparr>info_text = DaysOverdue (js_abs (differenceInDays pf dueDate today)),
                info_color = Error, info_urgent = True\<rparr>
        else
          Some \<lparr>info_text = DaysLeft (differenceInDays pf dueDate today),
                info_color = TextSecondary, info_urgent = False\<rparr>)"

record task_stats =
  total :: nat
  completed :: nat
  pending :: nat
  overdue :: nat

definition getTaskStats :: "platform \<Rightarrow> task list \<Rightarrow> task_stats" where
  "getTaskStats pf tasks =
     (let total = length tasks;
          completed = length (filter (\<lambda>t. status t = Completed) tasks);
          pending = total - completed;
          overdue = length (filter (\<lambda>t. truthy (due_date t) \<and>
                                        isPast pf (newDate pf (due_date t)) \<and>
                                        status t = Pending) tasks)
      in \<lparr>total = total, completed = completed, pending = pending, overdue = overdue\<rparr>)"


section \<open>The analytics screen (app/analytics.tsx)\<close>

text \<open>
  The counts and breakdowns computed by \<open>analyzeData\<close>.  The completion rate (a
  floating-point percentage) and the seven-day progress chart read no due date and are
  left out.
\<close>

record analytics =
  totalTasks :: nat
  completedTasks :: nat
  overdueTasks :: nat
  todaysTasks :: nat
  thisWeekTasks :: nat
  categoryBreakdown :: "category \<rightharpoonup> nat"
  priorityBreakdown :: "priority \<rightharpoonup> nat"

definition countInto :: "('k \<rightharpoonup> nat) \<Rightarrow> 'k \<Rightarrow> ('k \<rightharpoonup> nat)" where
  "countInto m k = m(k \<mapsto> (case m k of None \<Rightarrow> 0 | Some n \<Rightarrow> n) + 1)"

definition analyzeData :: "platform \<Rightarrow> task list \<Rightarrow> analytics" where
  "analyzeData pf tasks =
     (let dayStart = Some (startOfDay pf (now pf));
          dayEnd = Some (endOfDay pf (now pf))
      in \<lparr>totalTasks = length tasks,
          completedTasks = length (filter (\<lambda>t. status t = Completed) tasks),
          overdueTasks = length (filter (\<lambda>t. truthy (due_date t) \<and> status t = Pending \<and>
                                           js_lt (newDate pf (due_date t)) dayStart) tasks),
          todaysTasks = length (filter (\<lambda>t.
                           if \<not> truthy (due_date t) then False
                           else let taskDate = newDate pf (due_date t)
                                in js_le dayStart taskDate \<and> js_le taskDate dayEnd) tasks),
          thisWeekTasks = length (filter (\<lambda>t.
                           if created_at t = [] then False
                           else isThisWeek pf (parseISO pf (created_at t))) tasks),
          categoryBreakdown = fold (\<lambda>t m. countInto m (category t)) tasks Map.empty,
          priorityBreakdown = fold (\<lambda>t m. countInto m (priority t)) tasks Map.empty\<rparr>)"


section \<open>Requests to the Task API\<close>

text \<open>
  The outcome of \<open>fetch\<close> as the screens distinguish it: the call throws (network
  error), the response is not \<open>ok\<close> (with the \<open>detail\<close> of its JSON body, if any), or
  it is \<open>ok\<close> and carries a body.
\<close>

datatype 'a fetch_result = FetchThrew | ResponseNotOk "string option" | ResponseOk 'a

text \<open>The JSON bodies of POST and PUT; a field left out of the object is \<open>None\<close>.\<close>

record create_body =
  cb_title :: jstext
  cb_description :: "jstext option"
  cb_priority :: "priority option"
  cb_category :: "category option"
  cb_due_date :: "string option"

record update_body =
  ub_title :: "jstext option"
  ub_description :: "jstext option"
  ub_due_date :: "string option"
  ub_priority :: "priority option"
  ub_category :: "category option"
  ub_status :: "status option"

text \<open>
  The server behind \<open>EXPO_PUBLIC_BACKEND_URL\<close> is a parameter of the client model: one
  function per request the screens issue, each taking and returning the server's state.
\<close>

record 'st backend =
  get_tasks :: "'st \<Rightarrow> task list fetch_result \<times> 'st"
  post_task :: "create_body \<Rightarrow> 'st \<Rightarrow> task fetch_result \<times> 'st"
  put_task :: "string \<Rightarrow> update_body \<Rightarrow> 'st \<Rightarrow> task fetch_result \<times> 'st"
  delete_task :: "string \<Rightarrow> 'st \<Rightarrow> unit fetch_result \<times> 'st"


section \<open>Actions of the task list screen\<close>

record list_screen =
  tasks :: "task list"
  searchQuery :: jstext
  selectedCategory :: string
  selectedPriority :: string
  selectedStatus :: string
  sortBy :: string
  quickAddText :: jstext
  loading :: bool
  refreshing :: bool
  alerts :: "(string \<times> string) list"

definition initial_list_screen :: list_screen where
  "initial_list_screen =
     \<lparr>tasks = [], searchQuery = [], selectedCategory = ''all'', selectedPriority = ''all'',
      selectedStatus = ''all'', sortBy = ''created_at'', quickAddText = [], loading = True,
      refreshing = False, alerts = []\<rparr>"

definition displayedTasks :: "platform \<Rightarrow> list_screen \<Rightarrow> task list" where
  "displayedTasks pf scr =
     filteredTasks pf (tasks scr) (searchQuery scr) (selectedCategory scr)
       (selectedPriority scr) (selectedStatus scr) (sortBy scr)"

definition fetchTasks :: "'st backend \<Rightarrow> list_screen \<times> 'st \<Rightarrow> list_screen \<times> 'st" where
  "fetchTasks b = (\<lambda>(scr, st).
     (case get_tasks b st of
        (ResponseOk tasksData, st') \<Rightarrow>
          (scr\<lparr>tasks := tasksData, loading := False, refreshing := False\<rparr>, st')
      | (ResponseNotOk _, st') \<Rightarrow>
          (scr\<lparr>alerts := alerts scr @ [(''Error'', ''Failed to fetch tasks'')],
                loading := False, refreshing := False\<rparr>, st')
      | (FetchThrew, st') \<Rightarrow>
          (scr\<lparr>alerts := alerts scr @ [(''Error'', ''Network error occurred'')],
                loading := False, refreshing := False\<rparr>, st')))"

definition quickAddTask :: "'st backend \<Rightarrow> list_screen \<times> 'st \<Rightarrow> list_screen \<times> 'st" where
  "quickAddTask b = (\<lambda>(scr, st).
     if trim (quickAddText scr) = [] then (scr, st)
     else
       (case post_task b
               \<lparr>cb_title = trim (quickAddText scr), cb_description = None,
                cb_priority = Some Medium, cb_category = Some Personal,
                cb_due_date = None\<rparr> st of
          (ResponseOk _, st') \<Rightarrow> fetchTasks b (scr\<lparr>quickAddText := []\<rparr>, st')
        | (ResponseNotOk _, st') \<Rightarrow>
            (scr\<lparr>alerts := alerts scr @ [(''Error'', ''Failed to create task'')]\<rparr>, st')
        | (FetchThrew, st') \<Rightarrow>
            (scr\<lparr>alerts := alerts scr @ [(''Error'', ''Network error occurred'')]\<rparr>, st')))"

definition status_only :: "status \<Rightarrow> update_body" where
  "status_only s =
     \<lparr>ub_title = None, ub_description = None, ub_due_date = None, ub_priority = None,
      ub_category = None, ub_status = Some s\<rparr>"

definition toggleTaskStatus ::
  "'st backend \<Rightarrow> task \<Rightarrow> list_screen \<times> 'st \<Rightarrow> list_screen \<times> 'st" where
  "toggleTaskStatus b task = (\<lambda>(scr, st).
     let newStatus = (if status task = Pending then Completed else Pending) in
     (case put_task b (task_id task) (status_only newStatus) st of
        (ResponseOk _, st') \<Rightarrow>
          (scr\<lparr>tasks := map (\<lambda>t. if task_id t = task_id task
                                  then t\<lparr>status := newStatus\<rparr> else t) (tasks scr)\<rparr>, st')
      | (ResponseNotOk _, st') \<Rightarrow>
          (scr\<lparr>alerts := alerts scr @ [(''Error'', ''Failed to update task status'')]\<rparr>, st')
      | (FetchThrew, st') \<Rightarrow>
          (scr\<lparr>alerts := alerts scr @ [(''Error'', ''Network error occurred'')]\<rparr>, st')))"


section \<open>The add-task screen (app/add-task.tsx)\<close>

text \<open>The form's state.  Its fields carry the prefix \<open>new_\<close> where the source's name is
  already a field of \<open>task\<close>, and \<open>form_\<close> where it is a field of the list screen;
  \<open>form_alerts\<close> collects the calls of \<open>Alert.alert\<close> and \<open>navigatedBack\<close> records
  \<open>router.back()\<close>.\<close>

record add_task_screen =
  new_title :: jstext
  new_description :: jstext
  new_priority :: priority
  new_category :: category
  dueDate :: "int option"
  hasReminder :: bool
  form_loading :: bool
  form_alerts :: "(string \<times> string) list"
  navigatedBack :: bool

definition initial_add_task_screen :: add_task_screen where
  "initial_add_task_screen =
     \<lparr>new_title = [], new_description = [], new_priority = Medium, new_category = Personal,
      dueDate = None, hasReminder = False, form_loading = False, form_alerts = [],
      navigatedBack = False\<rparr>"

definition createTask ::
  "platform \<Rightarrow> 'st backend \<Rightarrow> add_task_screen \<times> 'st \<Rightarrow> add_task_screen \<times> 'st" where
  "createTask pf b = (\<lambda>(frm, st).
     if trim (new_title frm) = [] then
       (frm\<lparr>form_alerts := form_alerts frm @
                [(''Validation Error'', ''Please enter a task title'')]\<rparr>, st)
     else
       (case post_task b
               \<lparr>cb_title = trim (new_title frm),
                cb_description = Some (trim (new_description frm)),
                cb_priority = Some (new_priority frm),
                cb_category = Some (new_category frm),
                cb_due_date = map_option (toISOString pf) (dueDate frm)\<rparr> st of
          (ResponseOk _, st') \<Rightarrow> (frm\<lparr>navigatedBack := True, form_loading := False\<rparr>, st')
        | (ResponseNotOk detail, st') \<Rightarrow>
            (frm\<lparr>form_alerts := form_alerts frm @
                     [(''Error'', (case detail of
                                     None \<Rightarrow> ''Failed to create task''
                                   | Some d \<Rightarrow> if d = [] then ''Failed to create task'' else d))],
                  form_loading := False\<rparr>, st')
        | (FetchThrew, st') \<Rightarrow>
            (frm\<lparr>form_alerts := form_alerts frm @ [(''Error'', ''Network error occurred'')],
                  form_loading := False\<rparr>, st')))"


section \<open>The Task Service\<close>

text \<open>
  Modelled from the spec: the Task Service and Task Store (the server that answers
  \<open>/api/tasks\<close>) are not among the source files; only the screens that call them
  are.  The definitions of this section follow the specification's description of the
  operations create, list, get, update and delete.  The store is the list of
  persisted records; the current time and the identifier for a new record are given to
  each operation.
\<close>

datatype service_error = ValidationError | NotFoundError

text \<open>Modelled from the spec: create trims the title and rejects it if empty, defaults
  priority and category, sets status to pending and both time stamps to the current time,
  and persists the record.\<close>

definition service_create ::
  "string \<Rightarrow> string \<Rightarrow> create_body \<Rightarrow> task list \<Rightarrow> service_error + task \<times> task list" where
  "service_create current_time new_id inp store =
     (if trim (cb_title inp) = [] then Inl ValidationError
      else
        let t = \<lparr>task_id = new_id,
                 title = trim (cb_title inp),
                 description = cb_description inp,
                 due_date = cb_due_date inp,
                 priority = (case cb_priority inp of None \<Rightarrow> Medium | Some p \<Rightarrow> p),
                 category = (case cb_category inp of None \<Rightarrow> Personal | Some c \<Rightarrow> c),
                 status = Pending,
                 created_at = current_time,
                 updated_at = current_time\<rparr>
        in Inr (t, store @ [t]))"

text \<open>Modelled from the spec: update merges the supplied fields into the existing record,
  refreshes \<open>updated_at\<close>, leaves unsupplied fields untouched, rejects a supplied empty
  title, and signals not-found for an unknown id.\<close>

definition merge_fields :: "string \<Rightarrow> update_body \<Rightarrow> task \<Rightarrow> task" where
  "merge_fields current_time partialFields t =
     t\<lparr>title := (case ub_title partialFields of None \<Rightarrow> title t | Some v \<Rightarrow> v),
       description := (case ub_description partialFields of None \<Rightarrow> description t | Some v \<Rightarrow> Some v),
       due_date := (case ub_due_date partialFields of None \<Rightarrow> due_date t | Some v \<Rightarrow> Some v),
       priority := (case ub_priority partialFields of None \<Rightarrow> priority t | Some v \<Rightarrow> v),
       category := (case ub_category partialFields of None \<Rightarrow> category t | Some v \<Rightarrow> v),
       status := (case ub_status partialFields of None \<Rightarrow> status t | Some v \<Rightarrow> v),
       updated_at := current_time\<rparr>"

definition service_update ::
  "string \<Rightarrow> string \<Rightarrow> update_body \<Rightarrow> task list \<Rightarrow> service_error + task \<times> task list" where
  "service_update current_time i partialFields store =
     (case find (\<lambda>t. task_id t = i) store of
        None \<Rightarrow> Inl NotFoundError
      | Some t \<Rightarrow>
          if ub_title partialFields = Some [] then Inl ValidationError
          else
            let t' = merge_fields current_time partialFields t
            in Inr (t', map (\<lambda>u. if task_id u = i then t' else u) store))"

text \<open>Modelled from the spec: get, delete, and list without filters in the default order
  (\<open>created_at\<close> descending).\<close>

definition service_get :: "string \<Rightarrow> task list \<Rightarrow> service_error + task" where
  "service_get i store =
     (case find (\<lambda>t. task_id t = i) store of None \<Rightarrow> Inl NotFoundError | Some t \<Rightarrow> Inr t)"

definition service_delete :: "string \<Rightarrow> task list \<Rightarrow> service_error + task list" where
  "service_delete i store =
     (case find (\<lambda>t. task_id t = i) store of
        None \<Rightarrow> Inl NotFoundError
      | Some t \<Rightarrow> Inr (filter (\<lambda>u. task_id u \<noteq> i) store))"

definition service_list :: "platform \<Rightarrow> task list \<Rightarrow> task list" where
  "service_list pf store =
     array_sort (\<lambda>a b. js_sub (parseDate pf (created_at b)) (parseDate pf (created_at a))) store"

text \<open>Modelled from the spec: the Task API, a thin translation of the four requests into
  service calls; an error becomes a response that is not \<open>ok\<close>.\<close>

definition task_api :: "platform \<Rightarrow> string \<Rightarrow> string \<Rightarrow> task list backend" where
  "task_api pf current_time new_id =
     \<lparr>get_tasks = (\<lambda>store. (ResponseOk (service_list pf store), store)),
      post_task = (\<lambda>body store.
         case service_create current_time new_id body store of
           Inl e \<Rightarrow> (ResponseNotOk None, store)
         | Inr (t, store') \<Rightarrow> (ResponseOk t, store')),
      put_task = (\<lambda>i body store.
         case service_update current_time i body store of
           Inl e \<Rightarrow> (ResponseNotOk None, store)
         | Inr (t, store') \<Rightarrow> (ResponseOk t, store')),
      delete_task = (\<lambda>i store.
         case service_delete i store of
           Inl e \<Rightarrow> (ResponseNotOk None, store)
         | Inr store' \<Rightarrow> (ResponseOk (), store'))\<rparr>"


section \<open>Properties stated by the specification\<close>

text \<open>What the three selections and the search query ask of a task; a selection of
  \<open>all\<close> and an empty query ask nothing.\<close>

definition passesFilters ::
  "platform \<Rightarrow> jstext \<Rightarrow> string \<Rightarrow> string \<Rightarrow> string \<Rightarrow> task \<Rightarrow> bool" where
  "passesFilters pf q c p s t =
     ((q = [] \<or> searchMatch pf q t) \<and>
      (c = ''all'' \<or> category_str (category t) = c) \<and>
      (p = ''all'' \<or> priority_str (priority t) = p) \<and>
      (s = ''all'' \<or> status_str (status t) = s))"

text \<open>Whether a task counts as having a due date is the comparator's own test: the field
  is present and not the empty string.\<close>

definition has_due_date :: "task \<Rightarrow> bool" where
  "has_due_date t = truthy (due_date t)"

text \<open>The time values the sort compares.\<close>

definition due_time :: "platform \<Rightarrow> task \<Rightarrow> jsdate" where
  "due_time pf t = newDate pf (due_date t)"

definition created_time :: "platform \<Rightarrow> task \<Rightarrow> jsdate" where
  "created_time pf t = parseDate pf (created_at t)"

text \<open>The order the specification asks of a list sorted by due date in a given direction:
  no task without a due date before one with a due date, and the dated tasks in ascending
  or in descending order of their time values.\<close>

datatype direction = Ascending | Descending

definition due_date_ordered :: "platform \<Rightarrow> direction \<Rightarrow> task list \<Rightarrow> bool" where
  "due_date_ordered pf dir xs =
     sorted_wrt (\<lambda>a b.
        (has_due_date b \<longrightarrow> has_due_date a) \<and>
        (has_due_date a \<and> has_due_date b \<longrightarrow>
           (case dir of
              Ascending \<Rightarrow> js_le (due_time pf a) (due_time pf b)
            | Descending \<Rightarrow> js_le (due_time pf b) (due_time pf a)))) xs"


section \<open>Concrete inputs\<close>

text \<open>A platform with a small table of dates (time values in days) and a clock at day
  20, three tasks, and a server that only counts the requests it receives.  The
  platform's lower-casing is given on ASCII text, where it turns \<open>A\<close> to \<open>Z\<close> into
  \<open>a\<close> to \<open>z\<close>, and on the two Greek strings of the street example below, where it
  is what ECMAScript prescribes: a capital sigma at the end of a word becomes the final
  small sigma U+03C2, a capital sigma on its own the small sigma U+03C3.\<close>

definition ascii_lower :: "nat \<Rightarrow> nat" where
  "ascii_lower c = (if 65 \<le> c \<and> c \<le> 90 then c + 32 else c)"

definition street_title :: jstext where
  "street_title = [0x39F, 0x394, 0x39F, 0x3A3]"

definition sigma_query :: jstext where
  "sigma_query = [0x3A3]"

definition demo_toLowerCase :: "jstext \<Rightarrow> jstext" where
  "demo_toLowerCase s =
     (if s = street_title then [0x3BF, 0x3B4, 0x3BF, 0x3C2]
      else if s = sigma_query then [0x3C3]
      else map ascii_lower s)"

definition demo_dates :: "(string \<times> int) list" where
  "demo_dates =
     [(''2024-01-10'', 10), (''2024-01-20'', 20), (''2024-01-30'', 30)]"

definition demo_platform :: platform where
  "demo_platform =
     \<lparr>toLowerCase = demo_toLowerCase,
      localeCompare = (\<lambda>a b. if a = b then 0 else 1),
      parseDate = map_of demo_dates,
      now = 20,
      isToday = (\<lambda>d. d = Some 20),
      isTomorrow = (\<lambda>d. d = Some 21),
      isPast = (\<lambda>d. js_lt d (Some 20)),
      differenceInDays = js_sub,
      startOfDay = (\<lambda>n. n),
      endOfDay = (\<lambda>n. n),
      isThisWeek = (\<lambda>d. js_le (Some 14) d \<and> js_le d (Some 20)),
      parseISO = map_of demo_dates,
      toISOString = (\<lambda>n. if n = 10 then ''2024-01-10'' else if n = 20 then ''2024-01-20''
                          else ''2024-01-30'')\<rparr>"

definition task_a :: task where
  "task_a =
     \<lparr>task_id = ''a'', title = code_units ''Buy Milk'', description = None, due_date = None,
      priority = Low, category = Personal, status = Pending,
      created_at = ''2024-01-10'', updated_at = ''2024-01-10''\<rparr>"

definition task_b :: task where
  "task_b =
     \<lparr>task_id = ''b'', title = code_units ''Report'',
      description = Some (code_units ''needs milk figures''),
      due_date = Some ''2024-01-30'', priority = High, category = Work, status = Completed,
      created_at = ''2024-01-20'', updated_at = ''2024-01-20''\<rparr>"

definition task_c :: task where
  "task_c =
     \<lparr>task_id = ''c'', title = code_units ''Revise'', description = Some [],
      due_date = Some ''2024-01-10'', priority = Medium, category = Study, status = Pending,
      created_at = ''2024-01-30'', updated_at = ''2024-01-30''\<rparr>"

definition counting_backend :: "nat backend" where
  "counting_backend =
     \<lparr>get_tasks = (\<lambda>n. (ResponseOk [], Suc n)),
      post_task = (\<lambda>body n. (ResponseOk task_a, Suc n)),
      put_task = (\<lambda>i body n. (ResponseOk task_a, Suc n)),
      delete_task = (\<lambda>i n. (ResponseOk (), Suc n))\<rparr>"

definition blank_form :: add_task_screen where
  "blank_form =
     \<lparr>new_title = [0x20, 0xA0, 0x09, 0x3000], new_description = code_units ''later'',
      new_priority = High, new_category = Work, dueDate = Some 30, hasReminder = False,
      form_loading = False, form_alerts = [], navigatedBack = False\<rparr>"


definition blank_screen :: list_screen where
  "blank_screen =
     initial_list_screen\<lparr>tasks := [task_a], quickAddText := [0xA0, 0x20, 0xFEFF]\<rparr>"

definition street_task :: task where
  "street_task =
     \<lparr>task_id = ''s'', title = street_title, description = None, due_date = None,
      priority = Medium, category = Personal, status = Pending,
      created_at = ''2024-01-20'', updated_at = ''2024-01-20''\<rparr>"

definition milk_input :: create_body where
  "milk_input =
     \<lparr>cb_title = code_units ''Buy milk'', cb_description = None, cb_priority = None,
      cb_category = None, cb_due_date = None\<rparr>"


section \<open>The model of \<open>sort\<close>: permutation and order\<close>

lemma mset_insertSorted: "mset (insertSorted cmp x ys) = add_mset x (mset ys)"
  by (induction ys) simp_all

lemma mset_array_sort: "mset (array_sort cmp xs) = mset xs"
  by (induction xs) (simp_all add: array_sort_def mset_insertSorted)

lemma set_array_sort: "set (array_sort cmp xs) = set xs"
  using mset_array_sort [of cmp xs] by (metis set_mset_mset)

lemma set_insertSorted: "set (insertSorted cmp x ys) = insert x (set ys)"
  using mset_insertSorted [of cmp x ys] by (metis set_mset_mset set_mset_add_mset_insert)

text \<open>Inserting keeps a list ordered by \<open>R\<close> when the comparator agrees with \<open>R\<close> on
  the elements met and \<open>R\<close> is transitive there.\<close>

lemma sorted_wrt_insertSorted:
  assumes le: "\<And>y. y \<in> set ys \<Longrightarrow> sortCompare (cmp x y) \<le> 0 \<Longrightarrow> R x y"
    and gt: "\<And>y. y \<in> set ys \<Longrightarrow> \<not> sortCompare (cmp x y) \<le> 0 \<Longrightarrow> R y x"
    and tr: "\<And>y z. y \<in> set ys \<Longrightarrow> z \<in> set ys \<Longrightarrow> R x y \<Longrightarrow> R y z \<Longrightarrow> R x z"
    and srt: "sorted_wrt R ys"
  shows "sorted_wrt R (insertSorted cmp x ys)"
  using assms
proof (induction ys)
  case Nil
  show ?case by simp
next
  case (Cons y ys)
  show ?case
  proof (cases "sortCompare (cmp x y) \<le> 0")
    case True
    have xy: "R x y" using Cons.prems(1) [of y] True by simp
    have "R x z" if "z \<in> set ys" for z
      using Cons.prems(3) [of y z] Cons.prems(4) xy that by auto
    with xy True Cons.prems(4) show ?thesis by auto
  next
    case False
    have yx: "R y x" using Cons.prems(2) [of y] False by simp
    have ih: "sorted_wrt R (insertSorted cmp x ys)"
    proof (rule Cons.IH)
      fix a assume "a \<in> set ys" "sortCompare (cmp x a) \<le> 0"
      then show "R x a" using Cons.prems(1) [of a] by simp
    next
      fix a assume "a \<in> set ys" "\<not> sortCompare (cmp x a) \<le> 0"
      then show "R a x" using Cons.prems(2) [of a] by simp
    next
      fix a b assume "a \<in> set ys" "b \<in> set ys" "R x a" "R a b"
      then show "R x b" using Cons.prems(3) [of a b] by simp
    next
      show "sorted_wrt R ys" using Cons.prems(4) by simp
    qed
    from False yx ih Cons.prems(4) show ?thesis
      by (auto simp: set_insertSorted)
  qed
qed

lemma sorted_wrt_array_sort:
  assumes le: "\<And>x y. x \<in> set xs \<Longrightarrow> y \<in> set xs \<Longrightarrow> sortCompare (cmp x y) \<le> 0 \<Longrightarrow> R x y"
    and gt: "\<And>x y. x \<in> set xs \<Longrightarrow> y \<in> set xs \<Longrightarrow> \<not> sortCompare (cmp x y) \<le> 0 \<Longrightarrow> R y x"
    and tr: "\<And>x y z. x \<in> set xs \<Longrightarrow> y \<in> set xs \<Longrightarrow> z \<in> set xs \<Longrightarrow> R x y \<Longrightarrow> R y z \<Longrightarrow> R x z"
  shows "sorted_wrt R (array_sort cmp xs)"
  using assms
proof (induction xs)
  case Nil
  show ?case by (simp add: array_sort_def)
next
  case (Cons x xs)
  have ih: "sorted_wrt R (array_sort cmp xs)"
  proof (rule Cons.IH)
    fix a b assume "a \<in> set xs" "b \<in> set xs" "sortCompare (cmp a b) \<le> 0"
    then show "R a b" using Cons.prems(1) [of a b] by simp
  next
    fix a b assume "a \<in> set xs" "b \<in> set xs" "\<not> sortCompare (cmp a b) \<le> 0"
    then show "R b a" using Cons.prems(2) [of a b] by simp
  next
    fix a b c assume "a \<in> set xs" "b \<in> set xs" "c \<in> set xs" "R a b" "R b c"
    then show "R a c" using Cons.prems(3) [of a b c] by simp
  qed
  have "sorted_wrt R (insertSorted cmp x (array_sort cmp xs))"
  proof (rule sorted_wrt_insertSorted [OF _ _ _ ih])
    fix y assume "y \<in> set (array_sort cmp xs)" "sortCompare (cmp x y) \<le> 0"
    then show "R x y" using Cons.prems(1) [of x y] by (simp add: set_array_sort)
  next
    fix y assume "y \<in> set (array_sort cmp xs)" "\<not> sortCompare (cmp x y) \<le> 0"
    then show "R y x" using Cons.prems(2) [of x y] by (simp add: set_array_sort)
  next
    fix y z assume "y \<in> set (array_sort cmp xs)" "z \<in> set (array_sort cmp xs)" "R x y" "R y z"
    then show "R x z" using Cons.prems(3) [of x y z] by (simp add: set_array_sort)
  qed
  then show ?case by (simp add: array_sort_def)
qed


section \<open>What the list screen displays\<close>

lemma mset_cond_filter:
  "mset (if b then filter P xs else xs) = filter_mset (\<lambda>t. b \<longrightarrow> P t) (mset xs)"
  by simp

lemma mset_filter_eq: "mset (filter P xs) = filter_mset P (mset xs)"
  by simp

text \<open>The displayed list holds, with their multiplicities, exactly the fetched tasks that
  pass the search and the three selections, whatever the sort key.\<close>

lemma mset_filteredTasks:
  "mset (filteredTasks pf ts q c p s k) = filter_mset (passesFilters pf q c p s) (mset ts)"
proof -
  have "mset (filteredTasks pf ts q c p s k) =
        filter_mset (\<lambda>t. s \<noteq> ''all'' \<longrightarrow> status_str (status t) = s)
          (filter_mset (\<lambda>t. p \<noteq> ''all'' \<longrightarrow> priority_str (priority t) = p)
            (filter_mset (\<lambda>t. c \<noteq> ''all'' \<longrightarrow> category_str (category t) = c)
              (filter_mset (\<lambda>t. q \<noteq> [] \<longrightarrow> searchMatch pf q t) (mset ts))))"
    unfolding filteredTasks_def Let_def mset_array_sort mset_cond_filter ..
  also have "\<dots> = filter_mset (passesFilters pf q c p s) (mset ts)"
    unfolding filter_filter_mset
    by (rule filter_mset_cong) (auto simp: passesFilters_def)
  finally show ?thesis .
qed

lemma passesFilters_all: "passesFilters pf [] ''all'' ''all'' ''all'' = (\<lambda>t. True)"
  by (rule ext) (simp add: passesFilters_def)

text \<open>The model of \<open>includes\<close> is containment as a contiguous sublist.\<close>

lemma str_includes_sublist: "str_includes s q = sublist q s"
  by (induction s) (simp_all add: sublist_Cons_right)

text \<open>
  Claim C1.  With no search query, and for every choice of the category, priority and
  status selections, the displayed list is a rearrangement of exactly those fetched tasks
  that satisfy every selection other than \<open>all\<close> at once.  In particular, selecting the
  status \<open>completed\<close> displays exactly the fetched tasks whose status is completed,
  each as often as it was fetched.
\<close>

theorem list_filters_conjunction:
  "mset (filteredTasks pf ts [] c p s k) =
   mset (filter (\<lambda>t. (c = ''all'' \<or> category_str (category t) = c) \<and>
                      (p = ''all'' \<or> priority_str (priority t) = p) \<and>
                      (s = ''all'' \<or> status_str (status t) = s)) ts)
   \<and> mset (filteredTasks pf ts [] ''all'' ''all'' ''completed'' k) =
     mset (filter (\<lambda>t. status t = Completed) ts)"
proof -
  have a: "passesFilters pf [] c p s = (\<lambda>t. (c = ''all'' \<or> category_str (category t) = c) \<and>
                      (p = ''all'' \<or> priority_str (priority t) = p) \<and>
                      (s = ''all'' \<or> status_str (status t) = s))" for c p s
    by (rule ext) (simp add: passesFilters_def)
  have b: "passesFilters pf [] ''all'' ''all'' ''completed'' = (\<lambda>t. status t = Completed)"
  proof (rule ext)
    fix t show "passesFilters pf [] ''all'' ''all'' ''completed'' t = (status t = Completed)"
      by (cases "status t") (simp_all add: passesFilters_def)
  qed
  have "mset (filteredTasks pf ts [] c p s k) =
   mset (filter (\<lambda>t. (c = ''all'' \<or> category_str (category t) = c) \<and>
                      (p = ''all'' \<or> priority_str (priority t) = p) \<and>
                      (s = ''all'' \<or> status_str (status t) = s)) ts)"
    unfolding mset_filter_eq mset_filteredTasks a ..
  moreover have "mset (filteredTasks pf ts [] ''all'' ''all'' ''completed'' k) =
     mset (filter (\<lambda>t. status t = Completed) ts)"
    unfolding mset_filter_eq mset_filteredTasks b ..
  ultimately show ?thesis by (rule conjI)
qed

theorem list_filters_conjunction_witness:
  "mset (filteredTasks demo_platform [task_a, task_b, task_c] [] ''all'' ''all''
           ''completed'' ''created_at'') = {#task_b#}"
  using list_filters_conjunction
          [of demo_platform "[task_a, task_b, task_c]" "''all''" "''all''" "''completed''"
              "''created_at''"]
  by (simp add: task_a_def task_b_def task_c_def)

text \<open>
  Claim C9, as amended.  For every non-empty search query, the displayed list is a
  rearrangement of exactly those fetched tasks that pass the category, priority and
  status selections and whose title, lower-cased by \<open>toLowerCase\<close>, contains the
  query lower-cased by \<open>toLowerCase\<close>, or whose description is present, not empty and,
  lower-cased, contains the lower-cased query.  This holds whatever the platform's
  lower-casing is.
\<close>

theorem search_filter_exact:
  assumes "q \<noteq> []"
  shows "mset (filteredTasks pf ts q c p s k) =
         mset (filter (\<lambda>t.
            ((c = ''all'' \<or> category_str (category t) = c) \<and>
             (p = ''all'' \<or> priority_str (priority t) = p) \<and>
             (s = ''all'' \<or> status_str (status t) = s)) \<and>
            (sublist (toLowerCase pf q) (toLowerCase pf (title t)) \<or>
             (case description t of
                None \<Rightarrow> False
              | Some d \<Rightarrow> d \<noteq> [] \<and> sublist (toLowerCase pf q) (toLowerCase pf d)))) ts)"
proof -
  have "passesFilters pf q c p s t =
        (((c = ''all'' \<or> category_str (category t) = c) \<and>
             (p = ''all'' \<or> priority_str (priority t) = p) \<and>
             (s = ''all'' \<or> status_str (status t) = s)) \<and>
            (sublist (toLowerCase pf q) (toLowerCase pf (title t)) \<or>
             (case description t of
                None \<Rightarrow> False
              | Some d \<Rightarrow> d \<noteq> [] \<and> sublist (toLowerCase pf q) (toLowerCase pf d))))" for t
    using assms
    by (cases "description t")
       (auto simp: passesFilters_def searchMatch_def str_includes_sublist)
  then show ?thesis
    unfolding mset_filter_eq mset_filteredTasks by presburger
qed

theorem search_filter_exact_witness:
  "code_units ''MILK'' \<noteq> [] \<and>
   mset (filteredTasks demo_platform [task_a, task_b, task_c] (code_units ''MILK'') ''all''
           ''all'' ''all'' ''priority'') = {#task_a, task_b#}"
  using search_filter_exact
          [of "code_units ''MILK''" demo_platform "[task_a, task_b, task_c]" "''all''" "''all''"
              "''all''" "''priority''"]
  by (simp add: task_a_def task_b_def task_c_def code_units_def demo_platform_def
      demo_toLowerCase_def ascii_lower_def street_title_def sigma_query_def sublist_code)

text \<open>
  Claim C9, as stated, asks for every task whose title contains the query
  case-insensitively.  A task titled with the Greek word for street in capitals
  (omicron, delta, omicron, sigma) contains the query capital sigma letter for letter,
  in the same case.  Lower-casing turns the title's last letter into the final sigma
  and the query into the plain small sigma, which the lower-cased title does not
  contain: the task is not displayed.
\<close>

theorem search_misses_final_sigma:
  "sublist sigma_query (title street_task) \<and>
   filteredTasks demo_platform [street_task] sigma_query ''all'' ''all'' ''all''
     ''created_at'' = []"
  by (simp add: filteredTasks_def searchMatch_def array_sort_def street_task_def
      demo_platform_def demo_toLowerCase_def street_title_def sigma_query_def sublist_code)

text \<open>
  Claim C10.  Every displayed task is one of the fetched tasks, no task is displayed more
  often than it was fetched, and with an empty query and all three selections at \<open>all\<close>
  the displayed list is a permutation of the fetched list.
\<close>

theorem pipeline_preserves_tasks:
  "mset (filteredTasks pf ts q c p s k) \<subseteq># mset ts \<and>
   set (filteredTasks pf ts q c p s k) \<subseteq> set ts \<and>
   (q = [] \<and> c = ''all'' \<and> p = ''all'' \<and> s = ''all'' \<longrightarrow>
      mset (filteredTasks pf ts q c p s k) = mset ts)"
proof -
  have sub: "mset (filteredTasks pf ts q c p s k) \<subseteq># mset ts"
    unfolding mset_filteredTasks by (rule multiset_filter_subset)
  have "set_mset (mset (filteredTasks pf ts q c p s k)) \<subseteq> set_mset (mset ts)"
    using sub by (rule set_mset_mono)
  then have st: "set (filteredTasks pf ts q c p s k) \<subseteq> set ts" by simp
  have "mset (filteredTasks pf ts [] ''all'' ''all'' ''all'' k) = mset ts"
    unfolding mset_filteredTasks by (simp add: passesFilters_all)
  with sub st show ?thesis by blast
qed

theorem pipeline_preserves_tasks_witness:
  "mset (filteredTasks demo_platform [task_a, task_b, task_c] [] ''all'' ''all'' ''all''
           ''due_date'') = {#task_a, task_b, task_c#}"
  using pipeline_preserves_tasks
          [of demo_platform "[task_a, task_b, task_c]" "[]" "''all''" "''all''" "''all''"
              "''due_date''"]
  by simp



text \<open>
  Claim C2.  With the sort key \<open>priority\<close> the displayed list is in descending order of
  the rank \<open>priorityOrder\<close>, in which high is above medium and medium above low: no task
  comes after a task of strictly lower rank.  The order is that of the ranks, not of the
  strings: lexicographically \<open>high\<close> is below \<open>low\<close>, and \<open>low\<close> below \<open>medium\<close>, so
  a descending sort of the strings would put high last.
\<close>

theorem priority_sort_semantic:
  "(\<forall>i j. i < j \<and> j < length (filteredTasks pf ts q c p s ''priority'') \<longrightarrow>
       priorityOrder (priority (filteredTasks pf ts q c p s ''priority'' ! j))
         \<le> priorityOrder (priority (filteredTasks pf ts q c p s ''priority'' ! i)))
   \<and> priorityOrder Low < priorityOrder Medium \<and> priorityOrder Medium < priorityOrder High
   \<and> priority_str High < priority_str Low \<and> priority_str Low < priority_str Medium"
proof -
  let ?R = "\<lambda>a b. priorityOrder (priority b) \<le> priorityOrder (priority a)"
  have "sorted_wrt ?R (array_sort (compareTasks pf ''priority'') xs)" for xs
    by (rule sorted_wrt_array_sort) (auto simp: compareTasks_def sortCompare_def)
  then have "sorted_wrt ?R (filteredTasks pf ts q c p s ''priority'')"
    unfolding filteredTasks_def Let_def .
  then show ?thesis
    by (simp add: sorted_wrt_iff_nth_less)
qed

theorem priority_sort_semantic_witness:
  "filteredTasks demo_platform [task_a, task_c, task_b] [] ''all'' ''all'' ''all'' ''priority''
     = [task_b, task_c, task_a] \<and>
   map (\<lambda>t. priority_str (priority t)) [task_b, task_c, task_a] = [''high'', ''medium'', ''low''] \<and>
   priorityOrder (priority ([task_b, task_c, task_a] ! 2)) \<le> priorityOrder (priority ([task_b, task_c, task_a] ! 0))"
proof -
  have e: "filteredTasks demo_platform [task_a, task_c, task_b] [] ''all'' ''all'' ''all'' ''priority''
     = [task_b, task_c, task_a]"
    by (simp add: filteredTasks_def array_sort_def compareTasks_def sortCompare_def
        task_a_def task_b_def task_c_def)
  have "(0::nat) < 2 \<and> 2 < length (filteredTasks demo_platform [task_a, task_c, task_b] [] ''all'' ''all'' ''all'' ''priority'')"
    by (simp add: e)
  with priority_sort_semantic [of demo_platform "[task_a, task_c, task_b]" "[]" "''all''" "''all''" "''all''"]
  have "priorityOrder (priority (filteredTasks demo_platform [task_a, task_c, task_b] [] ''all'' ''all'' ''all'' ''priority'' ! 2))
         \<le> priorityOrder (priority (filteredTasks demo_platform [task_a, task_c, task_b] [] ''all'' ''all'' ''all'' ''priority'' ! 0))"
    by blast
  then show ?thesis unfolding e by (simp add: task_a_def task_b_def task_c_def)
qed

text \<open>Comparison of time values that are not \<open>NaN\<close>.\<close>

lemma js_le_total: "a \<noteq> None \<Longrightarrow> b \<noteq> None \<Longrightarrow> \<not> js_le a b \<Longrightarrow> js_le b a"
  by (auto simp: js_le_def)

lemma js_le_trans: "js_le a b \<Longrightarrow> js_le b c \<Longrightarrow> js_le a c"
  by (auto simp: js_le_def split: option.splits)

lemma sortCompare_js_sub:
  "a \<noteq> None \<Longrightarrow> b \<noteq> None \<Longrightarrow> (sortCompare (js_sub a b) \<le> 0) = js_le a b"
  by (auto simp: js_le_def js_sub_def sortCompare_def)

text \<open>
  Claim C7.  With the initial sort key \<open>created_at\<close> (and with any key other than
  \<open>title\<close>, \<open>due_date\<close> and \<open>priority\<close>) the comparator's default branch orders by
  creation time, descending: of two adjacent displayed tasks, the earlier one was created
  at the same time as the later one or after it.  The creation stamps are assumed to be
  dates the platform can parse.
\<close>

theorem default_sort_created_desc:
  assumes key: "k \<noteq> ''title''" "k \<noteq> ''due_date''" "k \<noteq> ''priority''"
    and valid: "\<forall>t \<in> set ts. created_time pf t \<noteq> None"
  shows "\<forall>i. Suc i < length (filteredTasks pf ts q c p s k) \<longrightarrow>
           js_le (created_time pf (filteredTasks pf ts q c p s k ! Suc i))
                 (created_time pf (filteredTasks pf ts q c p s k ! i))"
proof -
  let ?R = "\<lambda>a b. js_le (created_time pf b) (created_time pf a)"
  let ?out = "filteredTasks pf ts q c p s k"
  have cmp: "compareTasks pf k a b = js_sub (created_time pf b) (created_time pf a)" for a b
    using key by (simp add: compareTasks_def created_time_def)
  have srt: "sorted_wrt ?R (array_sort (compareTasks pf k) xs)" if "set xs \<subseteq> set ts" for xs
  proof (rule sorted_wrt_array_sort)
    fix x y assume "x \<in> set xs" "y \<in> set xs" "sortCompare (compareTasks pf k x y) \<le> 0"
    then show "?R x y" using valid that by (simp add: cmp sortCompare_js_sub subset_iff)
  next
    fix x y assume "x \<in> set xs" "y \<in> set xs" "\<not> sortCompare (compareTasks pf k x y) \<le> 0"
    then show "?R y x" using valid that
      by (simp add: cmp sortCompare_js_sub subset_iff js_le_total)
  next
    fix x y z assume "?R x y" "?R y z"
    then show "?R x z" by (rule js_le_trans [rotated])
  qed
  have "sorted_wrt ?R ?out"
    unfolding filteredTasks_def Let_def by (rule srt) auto
  then show ?thesis
    by (simp add: sorted_wrt_iff_nth_less)
qed


theorem default_sort_created_desc_witness:
  "''created_at'' \<noteq> ''title'' \<and> ''created_at'' \<noteq> ''due_date'' \<and> ''created_at'' \<noteq> ''priority'' \<and>
   created_time demo_platform task_a = Some 10 \<and>
   created_time demo_platform task_b = Some 20 \<and>
   created_time demo_platform task_c = Some 30 \<and>
   filteredTasks demo_platform [task_a, task_b, task_c] [] ''all'' ''all'' ''all'' ''created_at''
     = [task_c, task_b, task_a] \<and>
   js_le (created_time demo_platform ([task_c, task_b, task_a] ! Suc 0))
         (created_time demo_platform ([task_c, task_b, task_a] ! 0))"
proof -
  have k: "''created_at'' \<noteq> ''title''" "''created_at'' \<noteq> ''due_date''" "''created_at'' \<noteq> ''priority''"
    by simp_all
  have v: "\<forall>t \<in> set [task_a, task_b, task_c]. created_time demo_platform t \<noteq> None"
    by (simp add: created_time_def demo_platform_def demo_dates_def task_a_def task_b_def task_c_def)
  have e: "filteredTasks demo_platform [task_a, task_b, task_c] [] ''all'' ''all'' ''all'' ''created_at''
     = [task_c, task_b, task_a]"
    by (simp add: filteredTasks_def array_sort_def compareTasks_def sortCompare_def js_sub_def
        demo_platform_def demo_dates_def task_a_def task_b_def task_c_def)
  have "Suc 0 < length (filteredTasks demo_platform [task_a, task_b, task_c] [] ''all'' ''all'' ''all'' ''created_at'')"
    by (simp add: e)
  with default_sort_created_desc [OF k v, of "[]" "''all''" "''all''" "''all''"]
  have "js_le (created_time demo_platform (filteredTasks demo_platform [task_a, task_b, task_c] [] ''all'' ''all'' ''all'' ''created_at'' ! Suc 0))
         (created_time demo_platform (filteredTasks demo_platform [task_a, task_b, task_c] [] ''all'' ''all'' ''all'' ''created_at'' ! 0))"
    by blast
  moreover have "created_time demo_platform task_a = Some 10"
    "created_time demo_platform task_b = Some 20" "created_time demo_platform task_c = Some 30"
    by (simp_all add: created_time_def demo_platform_def demo_dates_def task_a_def task_b_def
        task_c_def)
  ultimately show ?thesis using k e by simp
qed

text \<open>
  Claim C6, as amended.  The screen has one due-date sort and no choice of direction.
  With the sort key \<open>due_date\<close>, and every due date a date the platform can parse, no task
  without a due date is displayed before a task with one, and the tasks with due dates
  are displayed in ascending order of their due times.
\<close>

theorem due_date_sort_ascending:
  assumes valid: "\<forall>t \<in> set ts. has_due_date t \<longrightarrow> due_time pf t \<noteq> None"
  shows "due_date_ordered pf Ascending (filteredTasks pf ts q c p s ''due_date'')"
proof -
  let ?R = "\<lambda>a b. (has_due_date b \<longrightarrow> has_due_date a) \<and>
        (has_due_date a \<and> has_due_date b \<longrightarrow> js_le (due_time pf a) (due_time pf b))"
  have cmp_le: "(sortCompare (compareTasks pf ''due_date'' a b) \<le> 0) =
                (if \<not> has_due_date a \<and> \<not> has_due_date b then True
                 else if \<not> has_due_date a then False
                 else if \<not> has_due_date b then True
                 else js_le (due_time pf a) (due_time pf b))"
    if "a \<in> set ts" "b \<in> set ts" for a b
    using that valid
    by (simp add: compareTasks_def has_due_date_def due_time_def sortCompare_js_sub)
       (simp add: sortCompare_def)
  have srt: "sorted_wrt ?R (array_sort (compareTasks pf ''due_date'') xs)"
    if sub: "set xs \<subseteq> set ts" for xs
  proof (rule sorted_wrt_array_sort)
    fix x y assume a: "x \<in> set xs" "y \<in> set xs"
      and b: "sortCompare (compareTasks pf ''due_date'' x y) \<le> 0"
    from a sub have m: "x \<in> set ts" "y \<in> set ts" by auto
    from b show "?R x y" unfolding cmp_le [OF m] by (auto split: if_splits)
  next
    fix x y assume a: "x \<in> set xs" "y \<in> set xs"
      and b: "\<not> sortCompare (compareTasks pf ''due_date'' x y) \<le> 0"
    from a sub have m: "x \<in> set ts" "y \<in> set ts" by auto
    from b m valid show "?R y x" unfolding cmp_le [OF m]
      by (auto split: if_splits intro: js_le_total)
  next
    fix x y z assume "?R x y" "?R y z"
    then show "?R x z" by (auto intro: js_le_trans)
  qed
  have "sorted_wrt ?R (filteredTasks pf ts q c p s ''due_date'')"
    unfolding filteredTasks_def Let_def by (rule srt) auto
  then show ?thesis
    by (simp add: due_date_ordered_def)
qed

theorem due_date_sort_ascending_witness:
  "\<not> has_due_date task_a \<and>
   due_time demo_platform task_b = Some 30 \<and>
   due_time demo_platform task_c = Some 10 \<and>
   filteredTasks demo_platform [task_b, task_a, task_c] [] ''all'' ''all'' ''all'' ''due_date''
     = [task_c, task_b, task_a] \<and>
   due_date_ordered demo_platform Ascending [task_c, task_b, task_a]"
proof -
  have v: "\<forall>t \<in> set [task_b, task_a, task_c]. has_due_date t \<longrightarrow> due_time demo_platform t \<noteq> None"
    by (simp add: has_due_date_def due_time_def newDate_def truthy_def demo_platform_def
        demo_dates_def task_a_def task_b_def task_c_def)
  have e: "filteredTasks demo_platform [task_b, task_a, task_c] [] ''all'' ''all'' ''all'' ''due_date''
     = [task_c, task_b, task_a]"
    by (simp add: filteredTasks_def array_sort_def compareTasks_def sortCompare_def js_sub_def
        truthy_def newDate_def demo_platform_def demo_dates_def task_a_def task_b_def task_c_def)
  have d: "\<not> has_due_date task_a" "due_time demo_platform task_b = Some 30"
    "due_time demo_platform task_c = Some 10"
    by (simp_all add: has_due_date_def due_time_def newDate_def truthy_def demo_platform_def
        demo_dates_def task_a_def task_b_def task_c_def)
  show ?thesis
    using d e due_date_sort_ascending [OF v, of "[]" "''all''" "''all''" "''all''"] by simp
qed

text \<open>
  Claim C6, as stated, asks the same of a descending sort.  The due-date sort of two tasks
  due on the 10th and on the 30th displays the earlier one first, which is not the
  descending order.
\<close>

theorem due_date_sort_not_descending:
  "\<not> due_date_ordered demo_platform Descending
       (filteredTasks demo_platform [task_c, task_b] [] ''all'' ''all'' ''all'' ''due_date'')"
  by (simp add: filteredTasks_def array_sort_def compareTasks_def sortCompare_def js_sub_def
      js_le_def due_date_ordered_def has_due_date_def due_time_def
      truthy_def newDate_def demo_platform_def demo_dates_def task_b_def task_c_def)

text \<open>
  Claim C8.  A task whose due date is absent gets no due-date badge, and it counts
  neither as overdue in the statistics bar of the list screen nor as overdue or as due
  today in the analytics: each of the three counts is the same with the task in the list
  as without it, wherever it stands.
\<close>

theorem no_due_date_never_flagged:
  assumes "due_date t = None"
  shows "getDueDateInfo pf (due_date t) = None \<and>
         overdue (getTaskStats pf (xs @ t # ys)) = overdue (getTaskStats pf (xs @ ys)) \<and>
         overdueTasks (analyzeData pf (xs @ t # ys)) = overdueTasks (analyzeData pf (xs @ ys)) \<and>
         todaysTasks (analyzeData pf (xs @ t # ys)) = todaysTasks (analyzeData pf (xs @ ys))"
  using assms
  by (simp add: getDueDateInfo_def getTaskStats_def analyzeData_def truthy_def Let_def)

theorem no_due_date_never_flagged_witness:
  "due_date task_a = None \<and>
   getDueDateInfo demo_platform (due_date task_a) = None \<and>
   overdue (getTaskStats demo_platform ([task_c] @ task_a # [task_b])) = 1 \<and>
   overdueTasks (analyzeData demo_platform ([task_c] @ task_a # [task_b])) = 1 \<and>
   todaysTasks (analyzeData demo_platform ([task_c] @ task_a # [task_b])) = 0"
proof -
  have d: "due_date task_a = None" by (simp add: task_a_def)
  have 1: "overdue (getTaskStats demo_platform ([task_c] @ [task_b])) = 1"
    by (simp add: getTaskStats_def Let_def truthy_def newDate_def js_lt_def demo_platform_def
        demo_dates_def task_b_def task_c_def)
  have 2: "overdueTasks (analyzeData demo_platform ([task_c] @ [task_b])) = 1"
    by (simp add: analyzeData_def Let_def truthy_def newDate_def js_lt_def demo_platform_def
        demo_dates_def task_b_def task_c_def)
  have 3: "todaysTasks (analyzeData demo_platform ([task_c] @ [task_b])) = 0"
    by (simp add: analyzeData_def Let_def truthy_def newDate_def js_le_def demo_platform_def
        demo_dates_def task_b_def task_c_def)
  show ?thesis
    using no_due_date_never_flagged [OF d, of demo_platform "[task_c]" "[task_b]"] d 1 2 3 by simp
qed



section \<open>Creating and updating tasks\<close>

text \<open>Trimming leaves nothing exactly when the string is empty or all white space, and
  trimming twice is trimming once.\<close>

lemma trim_empty_iff: "trim s = [] \<longleftrightarrow> (\<forall>ch \<in> set s. isWhiteSpace ch)"
proof
  assume "trim s = []"
  then have a: "\<forall>ch \<in> set (dropWhile isWhiteSpace s). isWhiteSpace ch"
    by (simp add: trim_def dropWhile_eq_Nil_conv)
  show "\<forall>ch \<in> set s. isWhiteSpace ch"
  proof (cases "dropWhile isWhiteSpace s")
    case Nil
    then show ?thesis by (simp add: dropWhile_eq_Nil_conv)
  next
    case (Cons y ys)
    then have "\<not> isWhiteSpace y" using hd_dropWhile [of isWhiteSpace s] by simp
    moreover have "isWhiteSpace y" using a Cons by simp
    ultimately show ?thesis by simp
  qed
next
  assume "\<forall>ch \<in> set s. isWhiteSpace ch"
  then have e: "dropWhile isWhiteSpace s = []" by (simp add: dropWhile_eq_Nil_conv)
  show "trim s = []" unfolding trim_def e by simp
qed

lemma dropWhile_unchanged: "xs \<noteq> [] \<Longrightarrow> \<not> P (hd xs) \<Longrightarrow> dropWhile P xs = xs"
  by (cases xs) auto

lemma last_dropWhile: "dropWhile P xs \<noteq> [] \<Longrightarrow> last (dropWhile P xs) = last xs"
  by (induction xs) (auto split: if_splits)

lemma trim_idem: "trim (trim s) = trim s"
proof -
  define d where "d = dropWhile isWhiteSpace s"
  define e where "e = dropWhile isWhiteSpace (rev d)"
  have t: "trim s = rev e" by (simp add: trim_def d_def e_def)
  show ?thesis
  proof (cases "e = []")
    case True
    have "trim [] = []" by (simp add: trim_def)
    then show ?thesis unfolding t True by simp
  next
    case False
    have he: "\<not> isWhiteSpace (hd e)"
      using False hd_dropWhile [of isWhiteSpace "rev d"] by (simp add: e_def)
    have dne: "d \<noteq> []" using False by (auto simp: e_def)
    have "last e = last (rev d)" using False last_dropWhile [of isWhiteSpace "rev d"] by (simp add: e_def)
    also have "\<dots> = hd d" using dne by (simp add: last_rev)
    finally have le: "\<not> isWhiteSpace (last e)"
      using dne hd_dropWhile [of isWhiteSpace s] by (simp add: d_def)
    have "hd (rev e) = last e" using False by (simp add: hd_rev)
    with le have 1: "dropWhile isWhiteSpace (rev e) = rev e"
      using False by (simp add: dropWhile_unchanged)
    have 2: "dropWhile isWhiteSpace e = e" using False he by (rule dropWhile_unchanged)
    show ?thesis unfolding t unfolding trim_def 1 by (simp add: 2)
  qed
qed


text \<open>
  Claim C3.  When the title typed into the add-task form, or the text typed into the
  quick-add box, is empty or consists only of code units that \<open>trim\<close> removes (every
  ECMAScript white-space and line-terminator character, the no-break space and the
  ideographic space among them), which is exactly when trimming leaves nothing,
  \<open>createTask\<close> raises the validation alert and \<open>quickAddTask\<close> returns at once;
  neither sends a request.  Whatever the server is, its state after the attempt is its
  state before; the form and the list screen are unchanged as well, the alert apart.
\<close>

theorem blank_title_no_write:
  "((\<forall>ch \<in> set (new_title frm). isWhiteSpace ch) \<longrightarrow>
      createTask pf b (frm, st) =
        (frm\<lparr>form_alerts := form_alerts frm @
                [(''Validation Error'', ''Please enter a task title'')]\<rparr>, st))
   \<and>
   ((\<forall>ch \<in> set (quickAddText scr). isWhiteSpace ch) \<longrightarrow>
      quickAddTask b (scr, st) = (scr, st))"
  by (simp add: createTask_def quickAddTask_def trim_empty_iff)

theorem blank_title_no_write_witness:
  "snd (createTask demo_platform counting_backend (blank_form, 0)) = 0 \<and>
   form_alerts (fst (createTask demo_platform counting_backend (blank_form, 0))) =
     [(''Validation Error'', ''Please enter a task title'')] \<and>
   quickAddTask counting_backend (blank_screen, 0) = (blank_screen, 0) \<and>
   snd (quickAddTask counting_backend
          (blank_screen\<lparr>quickAddText := code_units ''x''\<rparr>, 0)) = 2"
proof -
  have 1: "\<forall>ch \<in> set (new_title blank_form). isWhiteSpace ch"
    by (simp add: blank_form_def isWhiteSpace_def)
  have 2: "\<forall>ch \<in> set (quickAddText blank_screen). isWhiteSpace ch"
    by (simp add: blank_screen_def isWhiteSpace_def)
  have 3: "snd (quickAddTask counting_backend
                  (blank_screen\<lparr>quickAddText := code_units ''x''\<rparr>, 0)) = 2"
    by (simp add: quickAddTask_def fetchTasks_def counting_backend_def trim_def isWhiteSpace_def
        code_units_def)
  show ?thesis
    using blank_title_no_write [of blank_form demo_platform counting_backend 0 blank_screen]
      1 2 3
    by (simp add: blank_form_def)
qed

text \<open>The Task Service as the specification describes it rejects such a title too, should
  a request with one reach it.\<close>

lemma service_create_rejects_blank:
  "\<forall>ch \<in> set (cb_title inp). isWhiteSpace ch \<Longrightarrow>
   service_create current_time new_id inp store = Inl ValidationError"
  by (simp add: service_create_def trim_empty_iff)

text \<open>
  Claim C5.  Against the Task Service as the specification describes it: for every create
  input whose title is not empty after trimming and which leaves out priority and
  category (a create input has no status), the operation succeeds, persists the new
  task at the end of the store, and the task has priority medium, category personal,
  status pending, and equal \<open>created_at\<close> and \<open>updated_at\<close>, both the current time.
\<close>

theorem create_defaults:
  assumes "trim (cb_title inp) \<noteq> []" and "cb_priority inp = None" and "cb_category inp = None"
  shows "\<exists>t. service_create current_time new_id inp store = Inr (t, store @ [t]) \<and>
             priority t = Medium \<and> category t = Personal \<and> status t = Pending \<and>
             created_at t = updated_at t \<and> created_at t = current_time"
  using assms by (simp add: service_create_def Let_def)

text \<open>The quick-add box does not rely on these defaults: it sends medium and personal
  itself, and the task the service then persists is the following one.\<close>

lemma quickAddTask_creates:
  assumes "trim (quickAddText scr) \<noteq> []"
  shows "snd (quickAddTask (task_api pf current_time new_id) (scr, store)) =
         store @ [\<lparr>task_id = new_id, title = trim (quickAddText scr), description = None,
                   due_date = None, priority = Medium, category = Personal, status = Pending,
                   created_at = current_time, updated_at = current_time\<rparr>]"
  using assms
  by (simp add: quickAddTask_def task_api_def service_create_def fetchTasks_def trim_idem Let_def)


theorem create_defaults_witness:
  "trim (cb_title milk_input) = code_units ''Buy milk'' \<and>
   service_create ''2024-01-20'' ''n1'' milk_input [task_a] =
     Inr (\<lparr>task_id = ''n1'', title = code_units ''Buy milk'', description = None,
           due_date = None,
           priority = Medium, category = Personal, status = Pending,
           created_at = ''2024-01-20'', updated_at = ''2024-01-20''\<rparr>,
          [task_a, \<lparr>task_id = ''n1'', title = code_units ''Buy milk'', description = None,
           due_date = None,
           priority = Medium, category = Personal, status = Pending,
           created_at = ''2024-01-20'', updated_at = ''2024-01-20''\<rparr>]) \<and>
   (\<exists>t. service_create ''2024-01-20'' ''n1'' milk_input [task_a] = Inr (t, [task_a] @ [t]) \<and>
        priority t = Medium \<and> category t = Personal \<and> status t = Pending \<and>
        created_at t = updated_at t \<and> created_at t = ''2024-01-20'')"
proof -
  have 1: "trim (cb_title milk_input) = code_units ''Buy milk''"
    by (simp add: milk_input_def trim_def isWhiteSpace_def code_units_def)
  then have 2: "trim (cb_title milk_input) \<noteq> []" by (simp add: code_units_def)
  have 3: "cb_priority milk_input = None" "cb_category milk_input = None"
    by (simp_all add: milk_input_def)
  have 4: "service_create ''2024-01-20'' ''n1'' milk_input [task_a] =
     Inr (\<lparr>task_id = ''n1'', title = code_units ''Buy milk'', description = None,
           due_date = None,
           priority = Medium, category = Personal, status = Pending,
           created_at = ''2024-01-20'', updated_at = ''2024-01-20''\<rparr>,
          [task_a, \<lparr>task_id = ''n1'', title = code_units ''Buy milk'', description = None,
           due_date = None,
           priority = Medium, category = Personal, status = Pending,
           created_at = ''2024-01-20'', updated_at = ''2024-01-20''\<rparr>])"
    using 1 2 by (simp add: service_create_def Let_def) (simp add: milk_input_def)
  from create_defaults [OF 2 3, of "''2024-01-20''" "''n1''" "[task_a]"] 1 4 show ?thesis by blast
qed

text \<open>Looking a record up by a key that is unique in the list.\<close>

lemma find_by_key:
  "distinct (map f xs) \<Longrightarrow> x \<in> set xs \<Longrightarrow> find (\<lambda>u. f u = f x) xs = Some x"
  by (induction xs) (auto simp: image_iff)

lemma key_eq_iff:
  "distinct (map f xs) \<Longrightarrow> x \<in> set xs \<Longrightarrow> u \<in> set xs \<Longrightarrow> f u = f x \<longleftrightarrow> u = x"
  by (auto simp: distinct_map dest: inj_onD)

text \<open>
  Claim C4.  \<open>toggleTaskStatus\<close> sends an update that supplies the status and nothing
  else.  Against the Task Service as the specification describes it, with identifiers
  unique in the store: the stored task with that identifier keeps its id, title,
  description, priority, category, due date and \<open>created_at\<close>, takes the new status, and
  has \<open>updated_at\<close> set to the current time, which is later than the old stamp whenever
  the clock has moved on since; every other stored task is left as it was.
\<close>

theorem status_update_frame:
  assumes ex: "t \<in> set store"
    and uniq: "distinct (map task_id store)"
    and ref: "task_id task = task_id t"
  shows "\<exists>t'. snd (toggleTaskStatus (task_api pf current_time new_id) task (scr, store)) =
                 map (\<lambda>u. if u = t then t' else u) store \<and>
              task_id t' = task_id t \<and> title t' = title t \<and>
              description t' = description t \<and> priority t' = priority t \<and>
              category t' = category t \<and> due_date t' = due_date t \<and>
              created_at t' = created_at t \<and>
              status t' = (if status task = Pending then Completed else Pending) \<and>
              updated_at t' = current_time \<and>
              (js_lt (parseDate pf (updated_at t)) (parseDate pf current_time) \<longrightarrow>
               js_lt (parseDate pf (updated_at t)) (parseDate pf (updated_at t')))"
proof -
  let ?s = "if status task = Pending then Completed else Pending"
  let ?t' = "merge_fields current_time (status_only ?s) t"
  have f: "find (\<lambda>u. task_id u = task_id task) store = Some t"
    unfolding ref using uniq ex by (rule find_by_key)
  have m: "map (\<lambda>u. if task_id u = task_id task then ?t' else u) store =
           map (\<lambda>u. if u = t then ?t' else u) store"
    using key_eq_iff [OF uniq ex] by (simp add: ref)
  have nt: "(ub_title (status_only ?s) = Some []) = False"
    by (simp add: status_only_def)
  have "service_update current_time (task_id task) (status_only ?s) store =
            Inr (?t', map (\<lambda>u. if task_id u = task_id task then ?t' else u) store)"
    unfolding service_update_def f by (simp only: option.case nt if_False Let_def)
  then have up: "service_update current_time (task_id task) (status_only ?s) store =
            Inr (?t', map (\<lambda>u. if u = t then ?t' else u) store)"
    unfolding m .
  have "snd (toggleTaskStatus (task_api pf current_time new_id) task (scr, store)) =
          map (\<lambda>u. if u = t then ?t' else u) store"
    unfolding toggleTaskStatus_def task_api_def Let_def
    by (simp only: backend.simps up sum.case prod.case fetch_result.case snd_conv)
  moreover have "task_id ?t' = task_id t" "title ?t' = title t"
    "description ?t' = description t" "priority ?t' = priority t"
    "category ?t' = category t" "due_date ?t' = due_date t" "created_at ?t' = created_at t"
    "status ?t' = ?s" "updated_at ?t' = current_time"
    by (simp_all add: merge_fields_def status_only_def)
  ultimately show ?thesis by (intro exI [of _ ?t']) simp
qed


theorem status_update_frame_witness:
  "task_a \<in> set [task_a, task_b, task_c] \<and>
   distinct (map task_id [task_a, task_b, task_c]) \<and>
   js_lt (parseDate demo_platform (updated_at task_a)) (parseDate demo_platform ''2024-01-20'') \<and>
   snd (toggleTaskStatus (task_api demo_platform ''2024-01-20'' ''n1'') task_a
          (initial_list_screen, [task_a, task_b, task_c])) =
     [task_a\<lparr>status := Completed, updated_at := ''2024-01-20''\<rparr>, task_b, task_c] \<and>
   (\<exists>t'. snd (toggleTaskStatus (task_api demo_platform ''2024-01-20'' ''n1'') task_a
                 (initial_list_screen, [task_a, task_b, task_c])) =
            map (\<lambda>u. if u = task_a then t' else u) [task_a, task_b, task_c] \<and>
         title t' = title task_a \<and> status t' = Completed \<and> updated_at t' = ''2024-01-20'' \<and>
         js_lt (parseDate demo_platform (updated_at task_a))
               (parseDate demo_platform (updated_at t')))"
proof -
  have 1: "task_a \<in> set [task_a, task_b, task_c]" by simp
  have 2: "distinct (map task_id [task_a, task_b, task_c])"
    by (simp add: task_a_def task_b_def task_c_def)
  have 3: "js_lt (parseDate demo_platform (updated_at task_a)) (parseDate demo_platform ''2024-01-20'')"
    by (simp add: js_lt_def demo_platform_def demo_dates_def task_a_def)
  have 4: "snd (toggleTaskStatus (task_api demo_platform ''2024-01-20'' ''n1'') task_a
          (initial_list_screen, [task_a, task_b, task_c])) =
     [task_a\<lparr>status := Completed, updated_at := ''2024-01-20''\<rparr>, task_b, task_c]"
    by (simp add: toggleTaskStatus_def task_api_def service_update_def merge_fields_def
        status_only_def Let_def task_a_def task_b_def task_c_def)
  have 5: "status task_a = Pending" by (simp add: task_a_def)
  from status_update_frame [OF 1 2 refl, of demo_platform "''2024-01-20''" "''n1''"
         initial_list_screen] 3 5
  have "\<exists>t'. snd (toggleTaskStatus (task_api demo_platform ''2024-01-20'' ''n1'') task_a
                 (initial_list_screen, [task_a, task_b, task_c])) =
            map (\<lambda>u. if u = task_a then t' else u) [task_a, task_b, task_c] \<and>
         title t' = title task_a \<and> status t' = Completed \<and> updated_at t' = ''2024-01-20'' \<and>
         js_lt (parseDate demo_platform (updated_at task_a))
               (parseDate demo_platform (updated_at t'))"
    by auto
  with 1 2 3 4 show ?thesis by blast
qed

text \<open>The list screen's own copy of the task takes the new status when the server
  answers \<open>ok\<close>; its other fields, \<open>updated_at\<close> among them, stay as fetched until the
  next \<open>fetchTasks\<close>.\<close>

lemma toggleTaskStatus_local_copy:
  assumes "find (\<lambda>u. task_id u = task_id task) store \<noteq> None"
  shows "tasks (fst (toggleTaskStatus (task_api pf current_time new_id) task (scr, store))) =
         map (\<lambda>u. if task_id u = task_id task
                   then u\<lparr>status := (if status task = Pending then Completed else Pending)\<rparr>
                   else u) (tasks scr)"
  using assms
  by (auto simp: toggleTaskStatus_def task_api_def service_update_def status_only_def Let_def)

end
